theory Spec2Isabelle
  imports Main "HOL-Library.Sublist"
begin

section \<open>Strings and values of the program\<close>

text \<open>
  The program is Python 3: a \<open>str\<close> is a sequence of Unicode code points, so a string of
  the program is a list of code points here, and \<open>length\<close> counts what Python's \<open>len\<close>
  counts. \<open>str_of\<close> writes a literal of the source.
\<close>

type_synonym pystr = "nat list"

definition str_of :: "string \<Rightarrow> pystr" where
  "str_of s = map of_char s"

definition newline :: nat where
  "newline = 10"

section \<open>The regular expressions of \<open>extract_video_id\<close>\<close>

text \<open>
  The character class \<open>[0-9A-Za-z_-]\<close> of all four patterns: three ranges of code points
  and the two characters \<open>_\<close> and \<open>-\<close>.
\<close>

definition id_char :: "nat \<Rightarrow> bool" where
  "id_char c =
     ((of_char CHR ''0'' \<le> c \<and> c \<le> of_char CHR ''9'')
      \<or> (of_char CHR ''A'' \<le> c \<and> c \<le> of_char CHR ''Z'')
      \<or> (of_char CHR ''a'' \<le> c \<and> c \<le> of_char CHR ''z'')
      \<or> c = of_char CHR ''_''
      \<or> c = of_char CHR ''-'')"

text \<open>
  \<open>[0-9A-Za-z_-]{n}\<close> at the head of a string: exactly \<open>n\<close> characters of the class, with
  the matched text and the rest of the string, or no match.
\<close>

fun match_class_n :: "nat \<Rightarrow> pystr \<Rightarrow> (pystr \<times> pystr) option" where
  "match_class_n 0 s = Some ([], s)"
| "match_class_n (Suc n) [] = None"
| "match_class_n (Suc n) (c # cs) =
     (if id_char c
      then (case match_class_n n cs of
              None \<Rightarrow> None
            | Some (g, r) \<Rightarrow> Some (c # g, r))
      else None)"

text \<open>
  \<open>$\<close> without the MULTILINE flag holds at the end of the string and also just before a
  newline that is the last character of the string.
\<close>

definition at_dollar :: "pystr \<Rightarrow> bool" where
  "at_dollar rest = (rest = [] \<or> rest = [newline])"

text \<open>\<open>re.match(r'^[0-9A-Za-z_-]{11}$', url_or_id)\<close>, as a truth value.\<close>

definition re_match_valid_id :: "pystr \<Rightarrow> bool" where
  "re_match_valid_id s =
     (case match_class_n 11 s of
        None \<Rightarrow> False
      | Some (g, rest) \<Rightarrow> at_dollar rest)"

text \<open>
  The three search patterns all have the shape: a non-capturing group of alternatives,
  then the capturing group \<open>([0-9A-Za-z_-]{11})\<close>, then (in the first pattern only) \<open>.*\<close>.
  An alternative is a sequence of atoms: a literal character, or the unescaped \<open>.\<close> of
  \<open>youtu.be\<close>, which stands for any character but a newline.
\<close>

datatype atom = Lit nat | AnyChar

fun atom_matches :: "atom \<Rightarrow> nat \<Rightarrow> bool" where
  "atom_matches (Lit c) d = (c = d)"
| "atom_matches AnyChar d = (d \<noteq> newline)"

definition lits :: "string \<Rightarrow> atom list" where
  "lits s = map (\<lambda>c. Lit (of_char c)) s"

fun match_atoms :: "atom list \<Rightarrow> pystr \<Rightarrow> pystr option" where
  "match_atoms [] s = Some s"
| "match_atoms (a # as) [] = None"
| "match_atoms (a # as) (c # cs) = (if atom_matches a c then match_atoms as cs else None)"

datatype pattern = Pattern (alternatives: "atom list list") (dot_star: bool)

text \<open>\<open>.*\<close> takes every character up to the next newline and cannot fail.\<close>

definition match_dot_star :: "bool \<Rightarrow> pystr \<Rightarrow> pystr option" where
  "match_dot_star present s = Some (if present then dropWhile (\<lambda>c. c \<noteq> newline) s else s)"

text \<open>One alternative, the group and the tail at the head of a string: group 1 of the match.\<close>

definition match_from :: "bool \<Rightarrow> atom list \<Rightarrow> pystr \<Rightarrow> pystr option" where
  "match_from ds alt s =
     (case match_atoms alt s of
        None \<Rightarrow> None
      | Some r \<Rightarrow>
          (case match_class_n 11 r of
             None \<Rightarrow> None
           | Some (g, r') \<Rightarrow>
               (case match_dot_star ds r' of None \<Rightarrow> None | Some _ \<Rightarrow> Some g)))"

text \<open>The alternatives are tried in the order written; the next one is tried when the
  rest of the pattern fails after the current one.\<close>

fun match_alts :: "bool \<Rightarrow> atom list list \<Rightarrow> pystr \<Rightarrow> pystr option" where
  "match_alts ds [] s = None"
| "match_alts ds (a # as) s =
     (case match_from ds a s of Some g \<Rightarrow> Some g | None \<Rightarrow> match_alts ds as s)"

text \<open>\<open>re.search(pattern, s)\<close>: the leftmost position at which the pattern matches; the
  result is \<open>match.group(1)\<close>.\<close>

fun re_search :: "pattern \<Rightarrow> pystr \<Rightarrow> pystr option" where
  "re_search p [] = match_alts (dot_star p) (alternatives p) []"
| "re_search p (c # cs) =
     (case match_alts (dot_star p) (alternatives p) (c # cs) of
        Some g \<Rightarrow> Some g
      | None \<Rightarrow> re_search p cs)"

definition patterns :: "pattern list" where
  "patterns =
     [Pattern [lits ''v='', lits ''/''] True,
      Pattern [lits ''embed/'', lits ''v/'', lits ''youtu'' @ [AnyChar] @ lits ''be/''] False,
      Pattern [lits ''watch?v=''] False]"

text \<open>The \<open>for pattern in patterns\<close> loop: the first pattern that matches returns.\<close>

fun search_patterns :: "pattern list \<Rightarrow> pystr \<Rightarrow> pystr option" where
  "search_patterns [] s = None"
| "search_patterns (p # ps) s =
     (case re_search p s of Some g \<Rightarrow> Some g | None \<Rightarrow> search_patterns ps s)"

definition extract_video_id :: "pystr \<Rightarrow> pystr option" where
  "extract_video_id url_or_id =
     (if re_match_valid_id url_or_id then Some url_or_id
      else search_patterns patterns url_or_id)"

section \<open>Values, exceptions and the extraction capability\<close>

text \<open>
  The values that travel through \<open>get_youtube_stream_url\<close> and \<open>get_stream\<close>: \<open>None\<close>,
  booleans, integers, strings, lists, and dictionaries with string keys (an association
  list in insertion order; a lookup returns the first binding of the key). Floating-point
  numbers are left out: no branch of the program inspects one.
\<close>

datatype pyval =
    PNone
  | PBool bool
  | PInt int
  | PStr pystr
  | PList "pyval list"
  | PDict "(pystr \<times> pyval) list"

text \<open>The truth value of an object in \<open>if x:\<close> and \<open>if not x:\<close>.\<close>

fun truthy :: "pyval \<Rightarrow> bool" where
  "truthy PNone = False"
| "truthy (PBool b) = b"
| "truthy (PInt i) = (i \<noteq> 0)"
| "truthy (PStr s) = (s \<noteq> [])"
| "truthy (PList xs) = (xs \<noteq> [])"
| "truthy (PDict d) = (d \<noteq> [])"

text \<open>
  The exceptions the interpreter itself raises inside the \<open>try\<close> block. All of them are
  subclasses of \<open>Exception\<close>. The text \<open>str(e)\<close> of such an exception belongs to the
  interpreter, not to the program, so the functions below take it as the parameter
  \<open>str_exn\<close>.
\<close>

datatype exn = KeyError pyval | IndexError | TypeError | AttributeError

text \<open>Sequencing of steps that may raise: the first exception ends the block.\<close>

definition and_then :: "exn + 'a \<Rightarrow> ('a \<Rightarrow> exn + 'b) \<Rightarrow> exn + 'b" where
  "and_then r f = (case r of Inl e \<Rightarrow> Inl e | Inr x \<Rightarrow> f x)"

text \<open>\<open>needle in haystack\<close> on two strings: the needle occurs as a contiguous run.\<close>

fun starts_with :: "pystr \<Rightarrow> pystr \<Rightarrow> bool" where
  "starts_with [] s = True"
| "starts_with (p # ps) [] = False"
| "starts_with (p # ps) (c # cs) = (p = c \<and> starts_with ps cs)"

fun contains :: "pystr \<Rightarrow> pystr \<Rightarrow> bool" where
  "contains needle [] = (needle = [])"
| "contains needle (c # cs) = (starts_with needle (c # cs) \<or> contains needle cs)"

text \<open>\<open>key in obj\<close> for a string key: membership in a dictionary's keys, in a list's
  elements, substring of a string; any other object is not a container.\<close>

fun py_in :: "pystr \<Rightarrow> pyval \<Rightarrow> exn + bool" where
  "py_in k (PDict d) = Inr (map_of d k \<noteq> None)"
| "py_in k (PList xs) = Inr (List.member xs (PStr k))"
| "py_in k (PStr s) = Inr (contains k s)"
| "py_in k PNone = Inl TypeError"
| "py_in k (PBool b) = Inl TypeError"
| "py_in k (PInt i) = Inl TypeError"

text \<open>\<open>obj[key]\<close> for a string key.\<close>

fun getitem_str :: "pyval \<Rightarrow> pystr \<Rightarrow> exn + pyval" where
  "getitem_str (PDict d) k = (case map_of d k of None \<Rightarrow> Inl (KeyError (PStr k)) | Some v \<Rightarrow> Inr v)"
| "getitem_str (PList xs) k = Inl TypeError"
| "getitem_str (PStr s) k = Inl TypeError"
| "getitem_str PNone k = Inl TypeError"
| "getitem_str (PBool b) k = Inl TypeError"
| "getitem_str (PInt i) k = Inl TypeError"

text \<open>\<open>obj[0]\<close>.\<close>

fun getitem_0 :: "pyval \<Rightarrow> exn + pyval" where
  "getitem_0 (PList []) = Inl IndexError"
| "getitem_0 (PList (x # xs)) = Inr x"
| "getitem_0 (PStr []) = Inl IndexError"
| "getitem_0 (PStr (c # cs)) = Inr (PStr [c])"
| "getitem_0 (PDict d) = Inl (KeyError (PInt 0))"
| "getitem_0 PNone = Inl TypeError"
| "getitem_0 (PBool b) = Inl TypeError"
| "getitem_0 (PInt i) = Inl TypeError"

text \<open>\<open>obj.get(key, default)\<close>: only a dictionary has the method.\<close>

fun dict_get :: "pyval \<Rightarrow> pystr \<Rightarrow> pyval \<Rightarrow> exn + pyval" where
  "dict_get (PDict d) k dflt = Inr (case map_of d k of None \<Rightarrow> dflt | Some v \<Rightarrow> v)"
| "dict_get (PList xs) k dflt = Inl AttributeError"
| "dict_get (PStr s) k dflt = Inl AttributeError"
| "dict_get PNone k dflt = Inl AttributeError"
| "dict_get (PBool b) k dflt = Inl AttributeError"
| "dict_get (PInt i) k dflt = Inl AttributeError"

text \<open>
  The extraction capability \<open>ydl.extract_info(video_url, download=False)\<close> (with the
  construction and the exit of the \<open>YoutubeDL\<close> context around it) is external. One call
  has one of three outcomes: it returns a value, it raises \<open>DownloadError\<close>, or it raises
  another \<open>Exception\<close>; the two exceptions carry their text \<open>str(e)\<close>.
\<close>

datatype outcome =
    Returns pyval
  | Raises_DownloadError pystr
  | Raises_Exception pystr

section \<open>\<open>get_youtube_stream_url\<close>\<close>

definition watch_url :: "pystr \<Rightarrow> pystr" where
  "watch_url video_id = str_of ''https://www.youtube.com/watch?v='' @ video_id"

text \<open>The choice of the stream URL; \<open>Inr None\<close> is the early return of
  \<open>"No stream URL found in video info"\<close>.\<close>

definition select_stream_url :: "pyval \<Rightarrow> exn + pyval option" where
  "select_stream_url info =
     and_then (py_in (str_of ''url'') info) (\<lambda>has_url.
       if has_url
       then and_then (getitem_str info (str_of ''url'')) (\<lambda>stream_url. Inr (Some stream_url))
       else and_then (dict_get info (str_of ''formats'') (PList [])) (\<lambda>formats.
         if truthy formats
         then and_then (getitem_0 formats) (\<lambda>first.
                and_then (getitem_str first (str_of ''url'')) (\<lambda>stream_url.
                  Inr (Some stream_url)))
         else Inr None))"

definition video_info_of :: "pyval \<Rightarrow> exn + pyval" where
  "video_info_of info =
     and_then (dict_get info (str_of ''title'') (PStr (str_of ''Unknown''))) (\<lambda>title.
     and_then (dict_get info (str_of ''description'') (PStr [])) (\<lambda>description.
     and_then (dict_get info (str_of ''channel'') (PStr (str_of ''Unknown''))) (\<lambda>channel.
     and_then (dict_get info (str_of ''duration'') (PInt 0)) (\<lambda>duration.
     and_then (dict_get info (str_of ''thumbnail'') (PStr [])) (\<lambda>thumbnail.
       Inr (PDict
         [(str_of ''title'', title),
          (str_of ''description'', description),
          (str_of ''channel_name'', channel),
          (str_of ''duration'', duration),
          (str_of ''thumbnail'', thumbnail)]))))))"

text \<open>The body of the \<open>with\<close> block once \<open>extract_info\<close> has returned \<open>info\<close>.\<close>

definition process_info :: "pyval \<Rightarrow> exn + (pyval \<times> pyval \<times> pyval)" where
  "process_info info =
     and_then (select_stream_url info) (\<lambda>sel.
       case sel of
         None \<Rightarrow> Inr (PNone, PNone, PStr (str_of ''No stream URL found in video info''))
       | Some stream_url \<Rightarrow>
           and_then (video_info_of info) (\<lambda>video_info. Inr (stream_url, video_info, PNone)))"

text \<open>The \<open>except yt_dlp.utils.DownloadError\<close> clause.\<close>

definition classify_download_error :: "pystr \<Rightarrow> pyval \<times> pyval \<times> pyval" where
  "classify_download_error error_message =
     (if contains (str_of ''Video unavailable'') error_message
      then (PNone, PNone, PStr (str_of ''Video is unavailable or has been removed''))
      else if contains (str_of ''Private video'') error_message
      then (PNone, PNone, PStr (str_of ''This video is private''))
      else if contains (str_of ''Sign in to confirm your age'') error_message
      then (PNone, PNone, PStr (str_of ''Age-restricted video''))
      else (PNone, PNone,
            PStr (str_of ''Error downloading video information: '' @ error_message)))"

text \<open>The result is the triple \<open>(stream_url, video_info, error)\<close>.\<close>

definition get_youtube_stream_url ::
    "(exn \<Rightarrow> pystr) \<Rightarrow> (pystr \<Rightarrow> outcome) \<Rightarrow> pystr \<Rightarrow> pyval \<times> pyval \<times> pyval" where
  "get_youtube_stream_url str_exn extract_info video_id =
     (case extract_info (watch_url video_id) of
        Returns info \<Rightarrow>
          (case process_info info of
             Inr result \<Rightarrow> result
           | Inl e \<Rightarrow> (PNone, PNone, PStr (str_of ''Unexpected error: '' @ str_exn e)))
      | Raises_DownloadError error_message \<Rightarrow> classify_download_error error_message
      | Raises_Exception message \<Rightarrow>
          (PNone, PNone, PStr (str_of ''Unexpected error: '' @ message)))"

section \<open>The request handler \<open>get_stream\<close>\<close>

text \<open>
  A response is the JSON body and the HTTP status. \<open>unquote\<close> (percent-decoding, from
  \<open>urllib.parse\<close>) is a parameter. Writing to the log does not change the response and is
  not modelled.
\<close>

definition invalid_input_response :: "pyval \<times> nat" where
  "invalid_input_response =
     (PDict [(str_of ''success'', PBool False),
             (str_of ''error'', PStr (str_of ''Invalid YouTube video ID or URL''))], 400)"

definition error_response :: "pyval \<Rightarrow> pystr \<Rightarrow> pyval \<times> nat" where
  "error_response error video_id =
     (PDict [(str_of ''success'', PBool False),
             (str_of ''error'', error),
             (str_of ''video_id'', PStr video_id)], 404)"

definition success_response :: "pystr \<Rightarrow> pyval \<Rightarrow> pyval \<Rightarrow> pyval \<times> nat" where
  "success_response video_id stream_url video_info =
     (PDict [(str_of ''success'', PBool True),
             (str_of ''video_id'', PStr video_id),
             (str_of ''stream_url'', stream_url),
             (str_of ''video_info'', video_info),
             (str_of ''cache_info'', PStr (str_of ''Stream URL expires after maximum 12 hours''))],
      200)"

text \<open>\<open>if not video_id\<close> holds for \<open>None\<close> and for the empty string.\<close>

definition get_stream ::
    "(pystr \<Rightarrow> pystr) \<Rightarrow> (exn \<Rightarrow> pystr) \<Rightarrow> (pystr \<Rightarrow> outcome) \<Rightarrow> pystr \<Rightarrow> pyval \<times> nat" where
  "get_stream unquote str_exn extract_info video_id_or_url =
     (case extract_video_id (unquote video_id_or_url) of
        None \<Rightarrow> invalid_input_response
      | Some video_id \<Rightarrow>
          if video_id = [] then invalid_input_response
          else
            (case get_youtube_stream_url str_exn extract_info video_id of
               (stream_url, video_info, error) \<Rightarrow>
                 if truthy error then error_response error video_id
                 else success_response video_id stream_url video_info))"

section \<open>Notions of the specification and stub capabilities\<close>

text \<open>A canonical video ID: exactly 11 characters of the alphabet \<open>[0-9A-Za-z_-]\<close>.\<close>

definition canonical_id :: "pystr \<Rightarrow> bool" where
  "canonical_id s = (length s = 11 \<and> list_all id_char s)"

text \<open>
  The input holds an embedded ID: somewhere in it \<open>v=\<close> or \<open>/\<close> is followed directly by
  11 characters of the alphabet. (The prefixes \<open>embed/\<close>, \<open>v/\<close>, \<open>youtu.be/\<close> and
  \<open>watch?v=\<close> all end in one of these two marks.)
\<close>

definition id_occurrence :: "pystr \<Rightarrow> bool" where
  "id_occurrence s =
     (\<exists>pre mark g post. s = pre @ mark @ g @ post
        \<and> (mark = str_of ''v='' \<or> mark = str_of ''/'') \<and> canonical_id g)"

text \<open>The two shapes of a result triple \<open>(stream_url, video_info, error)\<close>.\<close>

definition success_shape :: "pyval \<times> pyval \<times> pyval \<Rightarrow> bool" where
  "success_shape r =
     (case r of (stream_url, video_info, error) \<Rightarrow>
        stream_url \<noteq> PNone \<and> video_info \<noteq> PNone \<and> error = PNone)"

definition failure_shape :: "pyval \<times> pyval \<times> pyval \<Rightarrow> bool" where
  "failure_shape r =
     (case r of (stream_url, video_info, error) \<Rightarrow>
        stream_url = PNone \<and> video_info = PNone
        \<and> (case error of PStr message \<Rightarrow> message \<noteq> [] | _ \<Rightarrow> False))"

text \<open>
  Stub capabilities, each returning the same outcome for every URL, and a rendering of the
  interpreter's exceptions, for running the functions on concrete inputs.
\<close>

definition stub_str_exn :: "exn \<Rightarrow> pystr" where
  "stub_str_exn e =
     (case e of
        KeyError k \<Rightarrow> (case k of PStr s \<Rightarrow> str_of [CHR 0x27] @ s @ str_of [CHR 0x27] | _ \<Rightarrow> str_of ''0'')
      | IndexError \<Rightarrow> str_of ''index out of range''
      | TypeError \<Rightarrow> str_of ''unsupported operand''
      | AttributeError \<Rightarrow> str_of ''no attribute get'')"

definition stub_private :: "pystr \<Rightarrow> outcome" where
  "stub_private video_url = Raises_DownloadError (str_of ''ERROR: [youtube] Private video'')"

definition stub_private_unavailable :: "pystr \<Rightarrow> outcome" where
  "stub_private_unavailable video_url =
     Raises_DownloadError (str_of ''ERROR: Private video. Video unavailable'')"

definition stub_timeout :: "pystr \<Rightarrow> outcome" where
  "stub_timeout video_url = Raises_Exception (str_of ''timed out'')"

definition stub_title_only :: "pystr \<Rightarrow> outcome" where
  "stub_title_only video_url =
     Returns (PDict [(str_of ''url'', PStr (str_of ''https://cdn/stream'')),
                     (str_of ''title'', PStr (str_of ''T''))])"

definition stub_formats_only :: "pystr \<Rightarrow> outcome" where
  "stub_formats_only video_url =
     Returns (PDict [(str_of ''formats'',
                      PList [PDict [(str_of ''url'', PStr (str_of ''https://cdn/f0''))],
                             PDict [(str_of ''url'', PStr (str_of ''https://cdn/f1''))]])])"

definition stub_first_format_without_url :: "pystr \<Rightarrow> outcome" where
  "stub_first_format_without_url video_url =
     Returns (PDict [(str_of ''formats'',
                      PList [PDict [(str_of ''format_id'', PStr (str_of ''18''))],
                             PDict [(str_of ''url'', PStr (str_of ''https://cdn/f1''))]])])"

definition stub_null_url :: "pystr \<Rightarrow> outcome" where
  "stub_null_url video_url = Returns (PDict [(str_of ''url'', PNone)])"

definition sample_id :: pystr where
  "sample_id = str_of ''dQw4w9WgXcQ''"

text \<open>Percent-decoding leaves a string without \<open>%\<close> as it is; the stub is used on such
  strings only.\<close>

definition stub_unquote :: "pystr \<Rightarrow> pystr" where
  "stub_unquote s = s"

definition stub_no_url :: "pystr \<Rightarrow> outcome" where
  "stub_no_url video_url = Returns (PDict [(str_of ''title'', PStr (str_of ''T''))])"

text \<open>The \<open>video_info\<close> dictionary built from a dictionary \<open>info\<close>, where no \<open>get\<close> can
  raise.\<close>

definition video_info_dict :: "(pystr \<times> pyval) list \<Rightarrow> pyval" where
  "video_info_dict d =
     PDict
       [(str_of ''title'', case map_of d (str_of ''title'') of None \<Rightarrow> PStr (str_of ''Unknown'') | Some v \<Rightarrow> v),
        (str_of ''description'', case map_of d (str_of ''description'') of None \<Rightarrow> PStr [] | Some v \<Rightarrow> v),
        (str_of ''channel_name'', case map_of d (str_of ''channel'') of None \<Rightarrow> PStr (str_of ''Unknown'') | Some v \<Rightarrow> v),
        (str_of ''duration'', case map_of d (str_of ''duration'') of None \<Rightarrow> PInt 0 | Some v \<Rightarrow> v),
        (str_of ''thumbnail'', case map_of d (str_of ''thumbnail'') of None \<Rightarrow> PStr [] | Some v \<Rightarrow> v)]"

section \<open>Properties of the matching functions and of the gateway\<close>

lemma match_class_n_iff:
  "match_class_n n s = Some (g, r) \<longleftrightarrow> s = g @ r \<and> length g = n \<and> list_all id_char g"
proof (induction n s arbitrary: g rule: match_class_n.induct)
  case (1 s)
  show ?case by auto
next
  case (2 n)
  show ?case by auto
next
  case (3 n c cs)
  show ?case
  proof (cases g)
    case Nil
    then show ?thesis by (simp split: option.splits)
  next
    case (Cons d g')
    have "match_class_n (Suc n) (c # cs) = Some (d # g', r)
            \<longleftrightarrow> id_char c \<and> c = d \<and> match_class_n n cs = Some (g', r)"
      by (auto split: option.splits)
    also have "\<dots> \<longleftrightarrow> id_char c \<and> c = d \<and> cs = g' @ r \<and> length g' = n \<and> list_all id_char g'"
      using 3 [of g'] by blast
    also have "\<dots> \<longleftrightarrow> c # cs = (d # g') @ r \<and> length (d # g') = Suc n \<and> list_all id_char (d # g')"
      by auto
    finally show ?thesis using Cons by simp
  qed
qed

lemma match_class_n_append:
  "length g = n \<Longrightarrow> list_all id_char g \<Longrightarrow> match_class_n n (g @ r) = Some (g, r)"
  by (simp add: match_class_n_iff)

lemma match_class_n_exact:
  "length g = n \<Longrightarrow> list_all id_char g \<Longrightarrow> match_class_n n g = Some (g, [])"
  by (simp add: match_class_n_iff)

lemma match_class_numeral_Cons:
  "match_class_n (numeral k) (c # cs) =
     (if id_char c
      then (case match_class_n (pred_numeral k) cs of
              None \<Rightarrow> None
            | Some (g, r) \<Rightarrow> Some (c # g, r))
      else None)"
  by (simp add: numeral_eq_Suc)

lemma match_class_numeral_Nil: "match_class_n (numeral k) [] = None"
  by (simp add: numeral_eq_Suc)

lemma match_class_one_Cons:
  "match_class_n 1 (c # cs) = (if id_char c then Some ([c], cs) else None)"
  using match_class_n.simps(3)[of 0 c cs] by simp

lemmas extract_eval =
  extract_video_id_def re_match_valid_id_def at_dollar_def str_of_def patterns_def lits_def
  match_from_def newline_def match_dot_star_def
  match_class_numeral_Cons match_class_numeral_Nil match_class_one_Cons id_char_def

lemma match_from_canonical: "match_from ds alt s = Some g \<Longrightarrow> canonical_id g"
  by (auto simp: match_from_def canonical_id_def match_class_n_iff match_dot_star_def split: option.splits)

lemma match_alts_canonical: "match_alts ds alts s = Some g \<Longrightarrow> canonical_id g"
  by (induction alts) (auto split: option.splits dest: match_from_canonical)

lemma re_search_canonical: "re_search p s = Some g \<Longrightarrow> canonical_id g"
  by (induction s) (auto split: option.splits dest: match_alts_canonical)

lemma search_patterns_canonical: "search_patterns ps s = Some g \<Longrightarrow> canonical_id g"
  by (induction ps) (auto split: option.splits dest: re_search_canonical)

lemma re_match_valid_id_iff:
  "re_match_valid_id s \<longleftrightarrow> canonical_id s \<or> (\<exists>g. s = g @ [newline] \<and> canonical_id g)"
proof (cases "match_class_n 11 s")
  case None
  have "\<not> (\<exists>g r. s = g @ r \<and> length g = 11 \<and> list_all id_char g)"
  proof
    assume "\<exists>g r. s = g @ r \<and> length g = 11 \<and> list_all id_char g"
    then obtain g r where "s = g @ r" "length g = 11" "list_all id_char g" by blast
    then have "match_class_n 11 s = Some (g, r)" by (simp add: match_class_n_iff)
    with None show False by simp
  qed
  then have "\<not> canonical_id s" and "\<not> (\<exists>g. s = g @ [newline] \<and> canonical_id g)"
    unfolding canonical_id_def by (metis append_Nil2, metis)
  with None show ?thesis by (simp add: re_match_valid_id_def)
next
  case (Some p)
  obtain g r where p: "p = (g, r)" by (cases p)
  with Some have s: "s = g @ r" "length g = 11" "list_all id_char g"
    by (simp_all add: match_class_n_iff)
  have "re_match_valid_id s \<longleftrightarrow> r = [] \<or> r = [newline]"
    using Some p by (simp add: re_match_valid_id_def at_dollar_def)
  also have "\<dots> \<longleftrightarrow> canonical_id s \<or> (\<exists>g'. s = g' @ [newline] \<and> canonical_id g')"
    using s by (auto simp: canonical_id_def)
  finally show ?thesis .
qed

lemma extract_video_id_cases:
  assumes "extract_video_id s = Some v"
  shows "canonical_id v \<or> (\<exists>g. v = g @ [newline] \<and> canonical_id g)"
  using assms
  by (auto simp: extract_video_id_def re_match_valid_id_iff split: if_splits dest: search_patterns_canonical)

lemma extract_video_id_nonempty: "extract_video_id s = Some v \<Longrightarrow> v \<noteq> []"
  by (auto dest!: extract_video_id_cases simp: canonical_id_def)



lemma contains_starts: "starts_with p s \<longleftrightarrow> prefix p s"
  by (induction p s rule: starts_with.induct) auto

lemma contains_sublist: "contains needle hay \<longleftrightarrow> sublist needle hay"
  by (induction hay) (auto simp: sublist_Cons_right contains_starts)


subsection \<open>The search finds exactly the embedded IDs\<close>

lemma match_atoms_split:
  "match_atoms as s = Some r \<Longrightarrow> \<exists>taken. s = taken @ r \<and> length taken = length as"
proof (induction as s rule: match_atoms.induct)
  case (3 a as c cs)
  then obtain taken where "cs = taken @ r" "length taken = length as"
    by (auto split: if_splits)
  then have "c # cs = (c # taken) @ r \<and> length (c # taken) = length (a # as)" by simp
  then show ?case by blast
qed auto

lemma match_atoms_append:
  "match_atoms (as @ bs) s = Some r \<longleftrightarrow> (\<exists>m. match_atoms as s = Some m \<and> match_atoms bs m = Some r)"
  by (induction as s rule: match_atoms.induct) auto



lemma match_atoms_lits: "match_atoms (lits p) s = Some r \<longleftrightarrow> s = str_of p @ r"
proof (induction p arbitrary: s)
  case Nil
  show ?case by (auto simp: lits_def str_of_def)
next
  case (Cons c p)
  have step: "match_atoms (lits p) t = Some r \<longleftrightarrow> t = str_of p @ r" for t
    using Cons by blast
  show ?case
  proof (cases s)
    case Nil
    then show ?thesis by (simp add: lits_def str_of_def)
  next
    case (Cons d t)
    have "match_atoms (lits (c # p)) (d # t) = Some r
            \<longleftrightarrow> of_char c = d \<and> match_atoms (lits p) t = Some r"
      by (simp add: lits_def)
    also have "\<dots> \<longleftrightarrow> d # t = str_of (c # p) @ r"
      by (auto simp: step str_of_def)
    finally show ?thesis using Cons by simp
  qed
qed

text \<open>An alternative whose last atoms are the literal mark.\<close>

lemma match_from_mark:
  assumes "match_from ds (as @ lits mark) s = Some g"
  shows "\<exists>taken post. s = taken @ str_of mark @ g @ post \<and> canonical_id g"
proof -
  from assms obtain r post where r: "match_atoms (as @ lits mark) s = Some r"
    and g: "match_class_n 11 r = Some (g, post)"
    by (auto simp: match_from_def split: option.splits)
  from r obtain m where m: "match_atoms as s = Some m" and "match_atoms (lits mark) m = Some r"
    by (auto simp: match_atoms_append)
  then have "m = str_of mark @ r" by (simp add: match_atoms_lits)
  moreover from m obtain taken where "s = taken @ m" by (blast dest: match_atoms_split)
  moreover from g have "r = g @ post" "canonical_id g"
    by (simp_all add: match_class_n_iff canonical_id_def)
  ultimately show ?thesis by blast
qed

lemma match_atoms_lits_self: "match_atoms (lits mark) (str_of mark @ r) = Some r"
  by (simp add: match_atoms_lits)

lemma match_from_lits_hit:
  assumes "canonical_id g"
  shows "match_from ds (lits mark) (str_of mark @ g @ post) = Some g"
  using assms
  by (simp add: match_from_def match_atoms_lits_self match_class_n_append canonical_id_def
        match_dot_star_def)

lemma match_alts_hit:
  assumes "match_from ds a s = Some g"
  shows "a \<in> set as \<Longrightarrow> \<exists>g'. match_alts ds as s = Some g'"
  using assms by (induction as) (auto split: option.splits)

lemma re_search_hit:
  assumes "match_alts (dot_star p) (alternatives p) suf = Some g"
  shows "\<exists>g'. re_search p (pre @ suf) = Some g'"
proof (induction pre)
  case Nil
  from assms show ?case by (cases suf) auto
next
  case (Cons c pre)
  then show ?case by (auto split: option.splits)
qed

lemma re_search_found:
  assumes "re_search p s = Some g"
  shows "\<exists>pre suf a. s = pre @ suf \<and> a \<in> set (alternatives p) \<and> match_from (dot_star p) a suf = Some g"
proof -
  have alts: "match_alts ds as t = Some g \<Longrightarrow> \<exists>a \<in> set as. match_from ds a t = Some g" for ds as t
    by (induction as) (auto split: option.splits)
  from assms show ?thesis
  proof (induction s)
    case Nil
    then have "match_alts (dot_star p) (alternatives p) [] = Some g" by simp
    then obtain a where "a \<in> set (alternatives p)" "match_from (dot_star p) a [] = Some g"
      using alts by blast
    note a = this
    show ?case
    proof (intro exI conjI)
      show "[] = [] @ ([] :: pystr)" by simp
      show "a \<in> set (alternatives p)" by (rule a(1))
      show "match_from (dot_star p) a [] = Some g" by (rule a(2))
    qed
  next
    case (Cons c cs)
    show ?case
    proof (cases "match_alts (dot_star p) (alternatives p) (c # cs)")
      case (Some g')
      with Cons.prems have "g' = g" by simp
      with Some obtain a where "a \<in> set (alternatives p)" "match_from (dot_star p) a (c # cs) = Some g"
        using alts by blast
      note a = this
      show ?thesis
      proof (intro exI conjI)
        show "c # cs = [] @ (c # cs)" by simp
        show "a \<in> set (alternatives p)" by (rule a(1))
        show "match_from (dot_star p) a (c # cs) = Some g" by (rule a(2))
      qed
    next
      case None
      with Cons.prems have "re_search p cs = Some g" by simp
      then obtain pre suf a where "cs = pre @ suf" "a \<in> set (alternatives p)"
          "match_from (dot_star p) a suf = Some g"
        using Cons.IH by blast
      note a = this
      show ?thesis
      proof (intro exI conjI)
        show "c # cs = (c # pre) @ suf" using a(1) by simp
        show "a \<in> set (alternatives p)" by (rule a(2))
        show "match_from (dot_star p) a suf = Some g" by (rule a(3))
      qed
    qed
  qed
qed

text \<open>Every alternative of every pattern ends in one of the two marks.\<close>

lemma alternatives_end_in_mark:
  assumes "p \<in> set patterns" and "a \<in> set (alternatives p)"
  shows "\<exists>as mark. a = as @ lits mark \<and> (mark = ''v='' \<or> mark = ''/'')"
proof -
  have e: "lits (x @ y) = lits x @ lits y" for x y by (simp add: lits_def)
  from assms consider "a = lits ''v=''" | "a = lits ''/''" | "a = lits ''embed/''"
    | "a = lits ''v/''" | "a = lits ''youtu'' @ [AnyChar] @ lits ''be/''" | "a = lits ''watch?v=''"
    by (auto simp: patterns_def)
  then show ?thesis
  proof cases
    case 1 then have "a = [] @ lits ''v=''" by simp then show ?thesis by blast
  next
    case 2 then have "a = [] @ lits ''/''" by simp then show ?thesis by blast
  next
    case 3 then have "a = lits ''embed'' @ lits ''/''" by (simp add: lits_def) then show ?thesis by blast
  next
    case 4 then have "a = lits ''v'' @ lits ''/''" by (simp add: lits_def) then show ?thesis by blast
  next
    case 5 then have "a = (lits ''youtu'' @ [AnyChar] @ lits ''be'') @ lits ''/''" by (simp add: lits_def)
    then show ?thesis by blast
  next
    case 6 then have "a = lits ''watch?'' @ lits ''v=''" by (simp add: lits_def) then show ?thesis by blast
  qed
qed

lemma search_patterns_found:
  assumes "search_patterns ps s = Some g"
  shows "\<exists>p \<in> set ps. re_search p s = Some g"
  using assms by (induction ps) (auto split: option.splits)

lemma search_patterns_occurrence:
  assumes "search_patterns patterns s = Some g"
  shows "id_occurrence s"
proof -
  from assms obtain p where p: "p \<in> set patterns" "re_search p s = Some g"
    by (blast dest: search_patterns_found)
  then obtain pre suf a where a: "s = pre @ suf" "a \<in> set (alternatives p)"
      "match_from (dot_star p) a suf = Some g"
    by (blast dest: re_search_found)
  with p obtain as mark where m: "a = as @ lits mark" "mark = ''v='' \<or> mark = ''/''"
    by (blast dest: alternatives_end_in_mark)
  with a obtain taken post where "suf = taken @ str_of mark @ g @ post" "canonical_id g"
    by (blast dest: match_from_mark)
  note t = this
  show ?thesis
    unfolding id_occurrence_def
  proof (intro exI conjI)
    show "s = (pre @ taken) @ str_of mark @ g @ post" using a(1) t(1) by simp
    show "str_of mark = str_of ''v='' \<or> str_of mark = str_of ''/''" using m(2) by auto
    show "canonical_id g" by (rule t(2))
  qed
qed

lemma occurrence_search_patterns:
  assumes "id_occurrence s"
  shows "\<exists>g. search_patterns patterns s = Some g"
proof -
  from assms obtain pre mark g post where s: "s = pre @ str_of mark @ g @ post"
      and mark: "mark = ''v='' \<or> mark = ''/''" and g: "canonical_id g"
    unfolding id_occurrence_def by blast
  let ?p = "Pattern [lits ''v='', lits ''/''] True"
  have "match_from True (lits mark) (str_of mark @ g @ post) = Some g"
    using g by (rule match_from_lits_hit)
  moreover have "lits mark \<in> set [lits ''v='', lits ''/'']" using mark by auto
  ultimately obtain g' where "match_alts True [lits ''v='', lits ''/''] (str_of mark @ g @ post) = Some g'"
    by (blast dest: match_alts_hit)
  then have "\<exists>g''. re_search ?p (pre @ str_of mark @ g @ post) = Some g''"
    using re_search_hit [of ?p "str_of mark @ g @ post" g' pre] by simp
  then show ?thesis using s by (auto simp: patterns_def)
qed

lemma extract_video_id_None_iff:
  "extract_video_id s = None \<longleftrightarrow> \<not> re_match_valid_id s \<and> \<not> id_occurrence s"
proof -
  have "search_patterns patterns s = None \<longleftrightarrow> \<not> id_occurrence s"
    using search_patterns_occurrence [of s] occurrence_search_patterns [of s]
    by (cases "search_patterns patterns s") auto
  then show ?thesis by (simp add: extract_video_id_def)
qed

subsection \<open>The gateway\<close>

lemma select_stream_url_dict:
  "select_stream_url (PDict d) =
     (case map_of d (str_of ''url'') of
        Some u \<Rightarrow> Inr (Some u)
      | None \<Rightarrow>
          (case map_of d (str_of ''formats'') of
             None \<Rightarrow> Inr None
           | Some formats \<Rightarrow>
               if truthy formats
               then and_then (getitem_0 formats) (\<lambda>first.
                      and_then (getitem_str first (str_of ''url'')) (\<lambda>u. Inr (Some u)))
               else Inr None))"
  by (simp add: select_stream_url_def and_then_def split: option.splits)

lemma select_stream_url_needs_dict:
  assumes "select_stream_url info = Inr sel"
  shows "\<exists>d. info = PDict d"
  using assms by (cases info) (simp_all add: select_stream_url_def and_then_def split: if_splits)

lemma video_info_of_dict: "video_info_of (PDict d) = Inr (video_info_dict d)"
  by (simp add: video_info_of_def video_info_dict_def and_then_def)

lemma process_info_dict:
  "process_info (PDict d) =
     (case select_stream_url (PDict d) of
        Inl e \<Rightarrow> Inl e
      | Inr None \<Rightarrow> Inr (PNone, PNone, PStr (str_of ''No stream URL found in video info''))
      | Inr (Some u) \<Rightarrow> Inr (u, video_info_dict d, PNone))"
  by (simp add: process_info_def and_then_def video_info_of_dict split: sum.splits option.splits)

lemma process_info_cases:
  assumes "process_info info = Inr r"
  shows "r = (PNone, PNone, PStr (str_of ''No stream URL found in video info''))
         \<or> (\<exists>d u. info = PDict d \<and> select_stream_url info = Inr (Some u) \<and> r = (u, video_info_dict d, PNone))"
proof (cases "select_stream_url info")
  case (Inl e)
  with assms show ?thesis by (simp add: process_info_def and_then_def)
next
  case (Inr sel)
  then obtain d where d: "info = PDict d" by (blast dest: select_stream_url_needs_dict)
  with assms Inr show ?thesis by (cases sel) (auto simp: process_info_dict)
qed

lemma classify_download_error_shape: "failure_shape (classify_download_error m)"
  by (simp add: classify_download_error_def failure_shape_def str_of_def)

lemma get_youtube_stream_url_cases:
  "failure_shape (get_youtube_stream_url str_exn extract_info video_id)
   \<or> (\<exists>d u. extract_info (watch_url video_id) = Returns (PDict d)
          \<and> select_stream_url (PDict d) = Inr (Some u)
          \<and> get_youtube_stream_url str_exn extract_info video_id = (u, video_info_dict d, PNone))"
proof (cases "extract_info (watch_url video_id)")
  case (Returns info)
  show ?thesis
  proof (cases "process_info info")
    case (Inl e)
    with Returns show ?thesis
      by (simp add: get_youtube_stream_url_def failure_shape_def str_of_def)
  next
    case (Inr r)
    with Returns have r: "get_youtube_stream_url str_exn extract_info video_id = r"
      by (simp add: get_youtube_stream_url_def)
    from Inr consider "r = (PNone, PNone, PStr (str_of ''No stream URL found in video info''))"
      | d u where "info = PDict d" "select_stream_url info = Inr (Some u)" "r = (u, video_info_dict d, PNone)"
      by (blast dest: process_info_cases)
    then show ?thesis
    proof cases
      case 1
      with r show ?thesis by (simp add: failure_shape_def str_of_def)
    next
      case 2
      with r Returns show ?thesis by simp
    qed
  qed
next
  case (Raises_DownloadError m)
  then show ?thesis by (simp add: get_youtube_stream_url_def classify_download_error_shape)
next
  case (Raises_Exception m)
  then show ?thesis by (simp add: get_youtube_stream_url_def failure_shape_def str_of_def)
qed

lemma failure_error_nonempty:
  assumes "get_youtube_stream_url str_exn extract_info video_id = (s, v, PStr reason)"
  shows "reason \<noteq> []"
  using get_youtube_stream_url_cases [of str_exn extract_info video_id] assms
  by (auto simp: failure_shape_def)

section \<open>Verified properties\<close>

lemma sample_id_canonical: "canonical_id sample_id"
  by (simp add: canonical_id_def sample_id_def str_of_def id_char_def)

lemma extract_sample_id: "extract_video_id sample_id = Some sample_id"
  using sample_id_canonical by (simp add: extract_video_id_def re_match_valid_id_iff)

lemma sublist_eval: "sublist needle hay = contains needle hay"
  by (simp add: contains_sublist)

text \<open>
  C1. For every canonical 11-character video ID, the watch URL, the short URL and the embed
  URL built from it are each normalised back to that ID.
\<close>

theorem extract_video_id_url_roundtrip:
  assumes "canonical_id v"
  shows "extract_video_id (str_of ''https://www.youtube.com/watch?v='' @ v) = Some v
    \<and> extract_video_id (str_of ''https://youtu.be/'' @ v) = Some v
    \<and> extract_video_id (str_of ''https://www.youtube.com/embed/'' @ v) = Some v"
  using assms unfolding canonical_id_def by (simp add: extract_eval match_class_n_exact)

theorem extract_video_id_url_roundtrip_witness:
  "canonical_id sample_id
   \<and> extract_video_id (str_of ''https://www.youtube.com/watch?v='' @ sample_id) = Some sample_id
   \<and> extract_video_id (str_of ''https://youtu.be/'' @ sample_id) = Some sample_id
   \<and> extract_video_id (str_of ''https://www.youtube.com/embed/'' @ sample_id) = Some sample_id"
  using extract_video_id_url_roundtrip [OF sample_id_canonical] sample_id_canonical by simp

text \<open>
  C2. A string that the pattern \<open>^[0-9A-Za-z_-]{11}$\<close> matches is returned unchanged. This
  holds for a string of exactly 11 characters of the alphabet, and for every other string
  on which the \<open>re.match\<close> of the source succeeds.
\<close>

theorem extract_video_id_canonical_fixed:
  "canonical_id s \<or> re_match_valid_id s \<Longrightarrow> extract_video_id s = Some s"
  by (auto simp: extract_video_id_def re_match_valid_id_iff)

theorem extract_video_id_canonical_fixed_witness:
  "canonical_id sample_id \<and> extract_video_id sample_id = Some sample_id"
proof -
  have h: "canonical_id sample_id \<or> re_match_valid_id sample_id"
    using sample_id_canonical by simp
  show ?thesis using extract_video_id_canonical_fixed [OF h] sample_id_canonical by simp
qed

text \<open>
  C3. A \<open>DownloadError\<close> is classified by the substrings of its message, in the order
  "Video unavailable", "Private video", "Sign in to confirm your age", and otherwise
  reported with the original message; any other exception, raised by the capability or by
  the interpreter while the result is processed, is reported as an unexpected error with
  its text.
\<close>

theorem download_error_classification:
  "(extract_info (watch_url video_id) = Raises_DownloadError m \<longrightarrow>
      get_youtube_stream_url str_exn extract_info video_id =
        (PNone, PNone,
         PStr (if sublist (str_of ''Video unavailable'') m
               then str_of ''Video is unavailable or has been removed''
               else if sublist (str_of ''Private video'') m
               then str_of ''This video is private''
               else if sublist (str_of ''Sign in to confirm your age'') m
               then str_of ''Age-restricted video''
               else str_of ''Error downloading video information: '' @ m)))
   \<and> (extract_info (watch_url video_id) = Raises_Exception m \<longrightarrow>
      get_youtube_stream_url str_exn extract_info video_id =
        (PNone, PNone, PStr (str_of ''Unexpected error: '' @ m)))
   \<and> (extract_info (watch_url video_id) = Returns info \<and> process_info info = Inl e \<longrightarrow>
      get_youtube_stream_url str_exn extract_info video_id =
        (PNone, PNone, PStr (str_of ''Unexpected error: '' @ str_exn e)))"
  by (simp add: get_youtube_stream_url_def classify_download_error_def contains_sublist)

theorem download_error_classification_witness:
  "stub_private (watch_url sample_id) = Raises_DownloadError (str_of ''ERROR: [youtube] Private video'')
   \<and> get_youtube_stream_url stub_str_exn stub_private sample_id =
       (PNone, PNone, PStr (str_of ''This video is private''))
   \<and> stub_timeout (watch_url sample_id) = Raises_Exception (str_of ''timed out'')
   \<and> get_youtube_stream_url stub_str_exn stub_timeout sample_id =
       (PNone, PNone, PStr (str_of ''Unexpected error: timed out''))
   \<and> stub_first_format_without_url (watch_url sample_id) =
       Returns (PDict [(str_of ''formats'',
                  PList [PDict [(str_of ''format_id'', PStr (str_of ''18''))],
                         PDict [(str_of ''url'', PStr (str_of ''https://cdn/f1''))]])])
   \<and> process_info (PDict [(str_of ''formats'',
                  PList [PDict [(str_of ''format_id'', PStr (str_of ''18''))],
                         PDict [(str_of ''url'', PStr (str_of ''https://cdn/f1''))]])])
       = Inl (KeyError (PStr (str_of ''url'')))
   \<and> get_youtube_stream_url stub_str_exn stub_first_format_without_url sample_id =
       (PNone, PNone, PStr (str_of ''Unexpected error: '' @ stub_str_exn (KeyError (PStr (str_of ''url'')))))"
proof -
  let ?info = "PDict [(str_of ''formats'',
                  PList [PDict [(str_of ''format_id'', PStr (str_of ''18''))],
                         PDict [(str_of ''url'', PStr (str_of ''https://cdn/f1''))]])]"
  have p: "process_info ?info = Inl (KeyError (PStr (str_of ''url'')))"
    by (simp add: process_info_def select_stream_url_def and_then_def str_of_def)
  have r: "stub_first_format_without_url (watch_url sample_id) = Returns ?info"
    by (simp add: stub_first_format_without_url_def)
  show ?thesis
    using download_error_classification
            [of stub_private sample_id "str_of ''ERROR: [youtube] Private video''" stub_str_exn]
          download_error_classification
            [of stub_timeout sample_id "str_of ''timed out''" stub_str_exn]
          download_error_classification
            [of stub_first_format_without_url sample_id _ stub_str_exn ?info
                "KeyError (PStr (str_of ''url''))"]
          p r
    by (simp add: stub_private_def stub_timeout_def sublist_eval str_of_def)
qed

text \<open>
  C4. For a dictionary returned by the capability, the stream URL is the top-level
  \<open>url\<close> when the key is present; without it, the \<open>url\<close> of the first entry of the
  \<open>formats\<close> list; and without a top-level \<open>url\<close> and with \<open>formats\<close> absent or empty the
  result is the failure "No stream URL found in video info". For the result with the two
  formats \<open>https://cdn/f0\<close> and \<open>https://cdn/f1\<close> and no top-level \<open>url\<close>, the stream URL
  is \<open>https://cdn/f0\<close>.
\<close>

theorem stream_url_selection:
  assumes "extract_info (watch_url video_id) = Returns (PDict d)"
  shows "(map_of d (str_of ''url'') = Some u \<longrightarrow>
            (\<exists>video_info. get_youtube_stream_url str_exn extract_info video_id
               = (u, video_info, PNone)))
    \<and> (map_of d (str_of ''url'') = None
         \<and> map_of d (str_of ''formats'') = Some (PList (PDict f # fs))
         \<and> map_of f (str_of ''url'') = Some u \<longrightarrow>
            (\<exists>video_info. get_youtube_stream_url str_exn extract_info video_id
               = (u, video_info, PNone)))
    \<and> (map_of d (str_of ''url'') = None
         \<and> (map_of d (str_of ''formats'') = None
              \<or> map_of d (str_of ''formats'') = Some (PList [])) \<longrightarrow>
            get_youtube_stream_url str_exn extract_info video_id
              = (PNone, PNone, PStr (str_of ''No stream URL found in video info'')))
    \<and> (d = [(str_of ''formats'',
               PList [PDict [(str_of ''url'', PStr (str_of ''https://cdn/f0''))],
                      PDict [(str_of ''url'', PStr (str_of ''https://cdn/f1''))]])] \<longrightarrow>
            fst (get_youtube_stream_url str_exn extract_info video_id)
              = PStr (str_of ''https://cdn/f0''))"
proof (intro conjI impI)
  assume "map_of d (str_of ''url'') = Some u"
  then show "\<exists>video_info. get_youtube_stream_url str_exn extract_info video_id
               = (u, video_info, PNone)"
    using assms by (simp add: get_youtube_stream_url_def process_info_dict select_stream_url_dict)
next
  assume "map_of d (str_of ''url'') = None
         \<and> map_of d (str_of ''formats'') = Some (PList (PDict f # fs))
         \<and> map_of f (str_of ''url'') = Some u"
  then show "\<exists>video_info. get_youtube_stream_url str_exn extract_info video_id
               = (u, video_info, PNone)"
    using assms
    by (simp add: get_youtube_stream_url_def process_info_dict select_stream_url_dict and_then_def)
next
  assume "map_of d (str_of ''url'') = None
         \<and> (map_of d (str_of ''formats'') = None
              \<or> map_of d (str_of ''formats'') = Some (PList []))"
  then show "get_youtube_stream_url str_exn extract_info video_id
              = (PNone, PNone, PStr (str_of ''No stream URL found in video info''))"
    using assms
    by (auto simp: get_youtube_stream_url_def process_info_dict select_stream_url_dict)
next
  assume "d = [(str_of ''formats'',
               PList [PDict [(str_of ''url'', PStr (str_of ''https://cdn/f0''))],
                      PDict [(str_of ''url'', PStr (str_of ''https://cdn/f1''))]])]"
  then show "fst (get_youtube_stream_url str_exn extract_info video_id)
              = PStr (str_of ''https://cdn/f0'')"
    using assms
    by (simp add: get_youtube_stream_url_def process_info_dict select_stream_url_dict
          and_then_def str_of_def)
qed

theorem stream_url_selection_witness:
  "stub_title_only (watch_url sample_id)
     = Returns (PDict [(str_of ''url'', PStr (str_of ''https://cdn/stream'')),
                       (str_of ''title'', PStr (str_of ''T''))])
   \<and> fst (get_youtube_stream_url stub_str_exn stub_title_only sample_id)
       = PStr (str_of ''https://cdn/stream'')
   \<and> stub_formats_only (watch_url sample_id)
       = Returns (PDict [(str_of ''formats'',
                    PList [PDict [(str_of ''url'', PStr (str_of ''https://cdn/f0''))],
                           PDict [(str_of ''url'', PStr (str_of ''https://cdn/f1''))]])])
   \<and> fst (get_youtube_stream_url stub_str_exn stub_formats_only sample_id)
       = PStr (str_of ''https://cdn/f0'')
   \<and> stub_no_url (watch_url sample_id) = Returns (PDict [(str_of ''title'', PStr (str_of ''T''))])
   \<and> get_youtube_stream_url stub_str_exn stub_no_url sample_id
       = (PNone, PNone, PStr (str_of ''No stream URL found in video info''))"
proof -
  let ?d1 = "[(str_of ''url'', PStr (str_of ''https://cdn/stream'')),
              (str_of ''title'', PStr (str_of ''T''))]"
  let ?f = "[(str_of ''url'', PStr (str_of ''https://cdn/f0''))]"
  let ?fs = "[PDict [(str_of ''url'', PStr (str_of ''https://cdn/f1''))]]"
  let ?d2 = "[(str_of ''formats'', PList (PDict ?f # ?fs))]"
  let ?d3 = "[(str_of ''title'', PStr (str_of ''T''))]"
  have h1: "stub_title_only (watch_url sample_id) = Returns (PDict ?d1)"
    by (simp add: stub_title_only_def)
  have h2: "stub_formats_only (watch_url sample_id) = Returns (PDict ?d2)"
    by (simp add: stub_formats_only_def)
  have h3: "stub_no_url (watch_url sample_id) = Returns (PDict ?d3)"
    by (simp add: stub_no_url_def)
  have a: "fst (get_youtube_stream_url stub_str_exn stub_title_only sample_id)
             = PStr (str_of ''https://cdn/stream'')"
    using stream_url_selection
            [where extract_info = stub_title_only and video_id = sample_id and d = ?d1
               and u = "PStr (str_of ''https://cdn/stream'')" and str_exn = stub_str_exn
               and f = ?f and fs = ?fs, OF h1]
    by (auto simp: str_of_def)
  have b: "fst (get_youtube_stream_url stub_str_exn stub_formats_only sample_id)
             = PStr (str_of ''https://cdn/f0'')"
    using stream_url_selection
            [where extract_info = stub_formats_only and video_id = sample_id and d = ?d2
               and u = "PStr (str_of ''https://cdn/f0'')" and str_exn = stub_str_exn
               and f = ?f and fs = ?fs, OF h2]
    by (auto simp: str_of_def)
  have c: "get_youtube_stream_url stub_str_exn stub_no_url sample_id
             = (PNone, PNone, PStr (str_of ''No stream URL found in video info''))"
    using stream_url_selection
            [where extract_info = stub_no_url and video_id = sample_id and d = ?d3
               and u = PNone and str_exn = stub_str_exn and f = ?f and fs = ?fs, OF h3]
    by (simp add: str_of_def)
  from h1 h2 h3 a b c show ?thesis by simp
qed

text \<open>
  C5. On success the metadata record takes each field from the capability's dictionary
  and substitutes a default for an absent key: "Unknown" for \<open>title\<close> and for
  \<open>channel_name\<close> (read from \<open>channel\<close>), the empty string for \<open>description\<close> and
  \<open>thumbnail\<close>, and 0 for \<open>duration\<close>. For the result with only \<open>url\<close> and \<open>title\<close>, the
  handler's response carries these defaults.
\<close>

theorem video_info_defaults:
  assumes "extract_info (watch_url video_id) = Returns (PDict d)"
    and "get_youtube_stream_url str_exn extract_info video_id = (stream_url, video_info, PNone)"
  shows "(map_of d (str_of ''title'') = None \<longrightarrow>
            getitem_str video_info (str_of ''title'') = Inr (PStr (str_of ''Unknown'')))
    \<and> (map_of d (str_of ''description'') = None \<longrightarrow>
            getitem_str video_info (str_of ''description'') = Inr (PStr []))
    \<and> (map_of d (str_of ''channel'') = None \<longrightarrow>
            getitem_str video_info (str_of ''channel_name'') = Inr (PStr (str_of ''Unknown'')))
    \<and> (map_of d (str_of ''duration'') = None \<longrightarrow>
            getitem_str video_info (str_of ''duration'') = Inr (PInt 0))
    \<and> (map_of d (str_of ''thumbnail'') = None \<longrightarrow>
            getitem_str video_info (str_of ''thumbnail'') = Inr (PStr []))
    \<and> (d = [(str_of ''url'', PStr (str_of ''https://cdn/stream'')),
             (str_of ''title'', PStr (str_of ''T''))]
         \<and> extract_video_id (unquote raw) = Some video_id \<longrightarrow>
            get_stream unquote str_exn extract_info raw =
              (PDict [(str_of ''success'', PBool True),
                      (str_of ''video_id'', PStr video_id),
                      (str_of ''stream_url'', PStr (str_of ''https://cdn/stream'')),
                      (str_of ''video_info'',
                         PDict [(str_of ''title'', PStr (str_of ''T'')),
                                (str_of ''description'', PStr []),
                                (str_of ''channel_name'', PStr (str_of ''Unknown'')),
                                (str_of ''duration'', PInt 0),
                                (str_of ''thumbnail'', PStr [])]),
                      (str_of ''cache_info'',
                         PStr (str_of ''Stream URL expires after maximum 12 hours''))],
               200))"
proof -
  have vi: "video_info = video_info_dict d"
    using get_youtube_stream_url_cases [of str_exn extract_info video_id] assms
    by (auto simp: failure_shape_def)
  have fields:
    "getitem_str (video_info_dict d) (str_of ''title'')
       = Inr (case map_of d (str_of ''title'') of None \<Rightarrow> PStr (str_of ''Unknown'') | Some v \<Rightarrow> v)"
    "getitem_str (video_info_dict d) (str_of ''description'')
       = Inr (case map_of d (str_of ''description'') of None \<Rightarrow> PStr [] | Some v \<Rightarrow> v)"
    "getitem_str (video_info_dict d) (str_of ''channel_name'')
       = Inr (case map_of d (str_of ''channel'') of None \<Rightarrow> PStr (str_of ''Unknown'') | Some v \<Rightarrow> v)"
    "getitem_str (video_info_dict d) (str_of ''duration'')
       = Inr (case map_of d (str_of ''duration'') of None \<Rightarrow> PInt 0 | Some v \<Rightarrow> v)"
    "getitem_str (video_info_dict d) (str_of ''thumbnail'')
       = Inr (case map_of d (str_of ''thumbnail'') of None \<Rightarrow> PStr [] | Some v \<Rightarrow> v)"
    by (simp_all add: video_info_dict_def str_of_def)
  have example: "get_stream unquote str_exn extract_info raw =
              (PDict [(str_of ''success'', PBool True),
                      (str_of ''video_id'', PStr video_id),
                      (str_of ''stream_url'', PStr (str_of ''https://cdn/stream'')),
                      (str_of ''video_info'',
                         PDict [(str_of ''title'', PStr (str_of ''T'')),
                                (str_of ''description'', PStr []),
                                (str_of ''channel_name'', PStr (str_of ''Unknown'')),
                                (str_of ''duration'', PInt 0),
                                (str_of ''thumbnail'', PStr [])]),
                      (str_of ''cache_info'',
                         PStr (str_of ''Stream URL expires after maximum 12 hours''))],
               200)"
    if d: "d = [(str_of ''url'', PStr (str_of ''https://cdn/stream'')),
                (str_of ''title'', PStr (str_of ''T''))]"
      and v: "extract_video_id (unquote raw) = Some video_id"
  proof -
    have "get_youtube_stream_url str_exn extract_info video_id
            = (PStr (str_of ''https://cdn/stream''), video_info_dict d, PNone)"
      using assms(1) d
      by (simp add: get_youtube_stream_url_def process_info_dict select_stream_url_dict)
    moreover have "video_info_dict d =
        PDict [(str_of ''title'', PStr (str_of ''T'')),
               (str_of ''description'', PStr []),
               (str_of ''channel_name'', PStr (str_of ''Unknown'')),
               (str_of ''duration'', PInt 0),
               (str_of ''thumbnail'', PStr [])]"
      using d by (simp add: video_info_dict_def str_of_def)
    moreover have "video_id \<noteq> []" using v by (rule extract_video_id_nonempty)
    ultimately show ?thesis
      using v by (simp add: get_stream_def success_response_def)
  qed
  show ?thesis using vi fields example by simp
qed

theorem video_info_defaults_witness:
  "stub_title_only (watch_url sample_id)
     = Returns (PDict [(str_of ''url'', PStr (str_of ''https://cdn/stream'')),
                       (str_of ''title'', PStr (str_of ''T''))])
   \<and> get_youtube_stream_url stub_str_exn stub_title_only sample_id
       = (PStr (str_of ''https://cdn/stream''),
          PDict [(str_of ''title'', PStr (str_of ''T'')),
                 (str_of ''description'', PStr []),
                 (str_of ''channel_name'', PStr (str_of ''Unknown'')),
                 (str_of ''duration'', PInt 0),
                 (str_of ''thumbnail'', PStr [])],
          PNone)
   \<and> extract_video_id (stub_unquote sample_id) = Some sample_id
   \<and> get_stream stub_unquote stub_str_exn stub_title_only sample_id =
       (PDict [(str_of ''success'', PBool True),
               (str_of ''video_id'', PStr sample_id),
               (str_of ''stream_url'', PStr (str_of ''https://cdn/stream'')),
               (str_of ''video_info'',
                  PDict [(str_of ''title'', PStr (str_of ''T'')),
                         (str_of ''description'', PStr []),
                         (str_of ''channel_name'', PStr (str_of ''Unknown'')),
                         (str_of ''duration'', PInt 0),
                         (str_of ''thumbnail'', PStr [])]),
               (str_of ''cache_info'',
                  PStr (str_of ''Stream URL expires after maximum 12 hours''))],
        200)"
proof -
  let ?d = "[(str_of ''url'', PStr (str_of ''https://cdn/stream'')),
             (str_of ''title'', PStr (str_of ''T''))]"
  let ?vi = "PDict [(str_of ''title'', PStr (str_of ''T'')),
                 (str_of ''description'', PStr []),
                 (str_of ''channel_name'', PStr (str_of ''Unknown'')),
                 (str_of ''duration'', PInt 0),
                 (str_of ''thumbnail'', PStr [])]"
  have h1: "stub_title_only (watch_url sample_id) = Returns (PDict ?d)"
    by (simp add: stub_title_only_def)
  have h2: "get_youtube_stream_url stub_str_exn stub_title_only sample_id
              = (PStr (str_of ''https://cdn/stream''), ?vi, PNone)"
    using h1
    by (simp add: get_youtube_stream_url_def process_info_dict select_stream_url_dict
          video_info_dict_def str_of_def)
  have h3: "extract_video_id (stub_unquote sample_id) = Some sample_id"
    by (simp add: stub_unquote_def extract_sample_id)
  show ?thesis
    using video_info_defaults
            [where extract_info = stub_title_only and video_id = sample_id and d = ?d
               and str_exn = stub_str_exn and unquote = stub_unquote and raw = sample_id,
             OF h1 h2]
          h1 h2 h3
    by simp
qed

lemma get_stream_rejects_None:
  assumes "extract_video_id (unquote raw) = None"
  shows "get_stream unquote str_exn extract_info raw =
           (PDict [(str_of ''success'', PBool False),
                   (str_of ''error'', PStr (str_of ''Invalid YouTube video ID or URL''))],
            400)"
  using assms by (simp add: get_stream_def invalid_input_response_def)

lemma extract_not_a_url: "extract_video_id (str_of ''not a url'') = None"
  by (simp add: extract_eval)

text \<open>
  C6. The handler answers 400 whenever \<open>extract_video_id\<close> returns \<open>None\<close>, and "not a url"
  is such an input (the two lemmas above). But not every input from which no canonical ID
  can be derived is rejected: 11 characters of the alphabet followed by a newline are not a
  canonical ID and hold no embedded ID, yet \<open>extract_video_id\<close> returns the 12 characters
  and the handler goes on to the extraction instead of answering 400. With a capability
  that succeeds, the answer is 200.
\<close>

theorem underivable_input_accepted:
  "\<not> canonical_id (str_of ''abcdefghijk'' @ [newline])
   \<and> \<not> id_occurrence (str_of ''abcdefghijk'' @ [newline])
   \<and> extract_video_id (stub_unquote (str_of ''abcdefghijk'' @ [newline]))
       = Some (str_of ''abcdefghijk'' @ [newline])
   \<and> get_stream stub_unquote stub_str_exn stub_title_only (str_of ''abcdefghijk'' @ [newline])
       = (PDict [(str_of ''success'', PBool True),
                 (str_of ''video_id'', PStr (str_of ''abcdefghijk'' @ [newline])),
                 (str_of ''stream_url'', PStr (str_of ''https://cdn/stream'')),
                 (str_of ''video_info'',
                    PDict [(str_of ''title'', PStr (str_of ''T'')),
                           (str_of ''description'', PStr []),
                           (str_of ''channel_name'', PStr (str_of ''Unknown'')),
                           (str_of ''duration'', PInt 0),
                           (str_of ''thumbnail'', PStr [])]),
                 (str_of ''cache_info'',
                    PStr (str_of ''Stream URL expires after maximum 12 hours''))],
          200)
   \<and> get_stream stub_unquote stub_str_exn stub_title_only (str_of ''abcdefghijk'' @ [newline])
       \<noteq> (PDict [(str_of ''success'', PBool False),
                 (str_of ''error'', PStr (str_of ''Invalid YouTube video ID or URL''))],
          400)"
proof -
  let ?x = "str_of ''abcdefghijk'' @ [newline]"
  have nc: "\<not> canonical_id ?x"
    by (simp add: canonical_id_def str_of_def)
  have "search_patterns patterns ?x = None"
    by (simp add: extract_eval)
  then have no: "\<not> id_occurrence ?x"
    using occurrence_search_patterns [of ?x] by auto
  have ex: "extract_video_id (stub_unquote ?x) = Some ?x"
    by (simp add: stub_unquote_def extract_eval)
  have gy: "get_youtube_stream_url stub_str_exn stub_title_only ?x
              = (PStr (str_of ''https://cdn/stream''),
                 PDict [(str_of ''title'', PStr (str_of ''T'')),
                        (str_of ''description'', PStr []),
                        (str_of ''channel_name'', PStr (str_of ''Unknown'')),
                        (str_of ''duration'', PInt 0),
                        (str_of ''thumbnail'', PStr [])],
                 PNone)"
    by (simp add: get_youtube_stream_url_def stub_title_only_def process_info_dict
          select_stream_url_dict video_info_dict_def str_of_def)
  have gs: "get_stream stub_unquote stub_str_exn stub_title_only ?x
       = (PDict [(str_of ''success'', PBool True),
                 (str_of ''video_id'', PStr ?x),
                 (str_of ''stream_url'', PStr (str_of ''https://cdn/stream'')),
                 (str_of ''video_info'',
                    PDict [(str_of ''title'', PStr (str_of ''T'')),
                           (str_of ''description'', PStr []),
                           (str_of ''channel_name'', PStr (str_of ''Unknown'')),
                           (str_of ''duration'', PInt 0),
                           (str_of ''thumbnail'', PStr [])]),
                 (str_of ''cache_info'',
                    PStr (str_of ''Stream URL expires after maximum 12 hours''))],
          200)"
    using ex gy by (simp add: get_stream_def success_response_def)
  have ne: "get_stream stub_unquote stub_str_exn stub_title_only ?x
       \<noteq> (PDict [(str_of ''success'', PBool False),
                 (str_of ''error'', PStr (str_of ''Invalid YouTube video ID or URL''))],
          400)"
    unfolding gs by simp
  from nc no ex gs ne show ?thesis by simp
qed

text \<open>
  C7. The instance of the claim for every message that contains "Private video" fails:
  "Video unavailable" is tested first, so for a \<open>DownloadError\<close> whose message contains
  both, the handler's 404 body carries the reason "Video is unavailable or has been
  removed", not "This video is private".
\<close>

theorem private_video_reason_counterexample:
  "stub_private_unavailable (watch_url sample_id)
     = Raises_DownloadError (str_of ''ERROR: Private video. Video unavailable'')
   \<and> sublist (str_of ''Private video'') (str_of ''ERROR: Private video. Video unavailable'')
   \<and> extract_video_id (stub_unquote sample_id) = Some sample_id
   \<and> get_stream stub_unquote stub_str_exn stub_private_unavailable sample_id =
       (PDict [(str_of ''success'', PBool False),
               (str_of ''error'', PStr (str_of ''Video is unavailable or has been removed'')),
               (str_of ''video_id'', PStr sample_id)],
        404)
   \<and> get_stream stub_unquote stub_str_exn stub_private_unavailable sample_id \<noteq>
       (PDict [(str_of ''success'', PBool False),
               (str_of ''error'', PStr (str_of ''This video is private'')),
               (str_of ''video_id'', PStr sample_id)],
        404)"
proof -
  have m: "stub_private_unavailable (watch_url sample_id)
             = Raises_DownloadError (str_of ''ERROR: Private video. Video unavailable'')"
    by (simp add: stub_private_unavailable_def)
  have s1: "sublist (str_of ''Private video'') (str_of ''ERROR: Private video. Video unavailable'')"
    by (simp add: sublist_eval str_of_def)
  have s2: "contains (str_of ''Video unavailable'') (str_of ''ERROR: Private video. Video unavailable'')"
    by (simp add: str_of_def)
  have ex: "extract_video_id (stub_unquote sample_id) = Some sample_id"
    by (simp add: stub_unquote_def extract_sample_id)
  have gy: "get_youtube_stream_url stub_str_exn stub_private_unavailable sample_id
              = (PNone, PNone, PStr (str_of ''Video is unavailable or has been removed''))"
    using m s2 by (simp add: get_youtube_stream_url_def classify_download_error_def)
  have ne: "sample_id \<noteq> []" by (simp add: sample_id_def str_of_def)
  have gs: "get_stream stub_unquote stub_str_exn stub_private_unavailable sample_id =
       (PDict [(str_of ''success'', PBool False),
               (str_of ''error'', PStr (str_of ''Video is unavailable or has been removed'')),
               (str_of ''video_id'', PStr sample_id)],
        404)"
    using ex gy ne by (simp add: get_stream_def error_response_def str_of_def)
  have d: "get_stream stub_unquote stub_str_exn stub_private_unavailable sample_id \<noteq>
       (PDict [(str_of ''success'', PBool False),
               (str_of ''error'', PStr (str_of ''This video is private'')),
               (str_of ''video_id'', PStr sample_id)],
        404)"
    unfolding gs by (simp add: str_of_def)
  from m s1 ex gs d show ?thesis by simp
qed

text \<open>
  C7, amended. When the input normalises to a video ID and the extraction fails with a
  reason, the handler answers with status 404 and the body
  \<open>{"success": false, "error": reason, "video_id": id}\<close>. In particular, a
  \<open>DownloadError\<close> whose message contains "Private video" and does not contain
  "Video unavailable" gives the reason "This video is private".
\<close>

theorem extraction_failure_404:
  assumes "extract_video_id (unquote raw) = Some video_id"
  shows "(get_youtube_stream_url str_exn extract_info video_id = (PNone, PNone, PStr reason) \<longrightarrow>
            get_stream unquote str_exn extract_info raw =
              (PDict [(str_of ''success'', PBool False),
                      (str_of ''error'', PStr reason),
                      (str_of ''video_id'', PStr video_id)],
               404))
    \<and> (extract_info (watch_url video_id) = Raises_DownloadError m
         \<and> sublist (str_of ''Private video'') m
         \<and> \<not> sublist (str_of ''Video unavailable'') m \<longrightarrow>
            get_stream unquote str_exn extract_info raw =
              (PDict [(str_of ''success'', PBool False),
                      (str_of ''error'', PStr (str_of ''This video is private'')),
                      (str_of ''video_id'', PStr video_id)],
               404))"
proof -
  have v: "video_id \<noteq> []" using assms by (rule extract_video_id_nonempty)
  have general: "get_stream unquote str_exn extract_info raw =
              (PDict [(str_of ''success'', PBool False),
                      (str_of ''error'', PStr r),
                      (str_of ''video_id'', PStr video_id)],
               404)"
    if r: "get_youtube_stream_url str_exn extract_info video_id = (PNone, PNone, PStr r)" for r
  proof -
    from r have "r \<noteq> []" by (rule failure_error_nonempty)
    with r v assms show ?thesis by (simp add: get_stream_def error_response_def)
  qed
  have private_video: "get_youtube_stream_url str_exn extract_info video_id
                   = (PNone, PNone, PStr (str_of ''This video is private''))"
    if "extract_info (watch_url video_id) = Raises_DownloadError m"
      and "sublist (str_of ''Private video'') m"
      and "\<not> sublist (str_of ''Video unavailable'') m"
    using that
    by (simp add: get_youtube_stream_url_def classify_download_error_def contains_sublist)
  show ?thesis using general private_video by blast
qed

theorem extraction_failure_404_witness:
  "extract_video_id (stub_unquote (str_of ''https://youtu.be/dQw4w9WgXcQ'')) = Some sample_id
   \<and> get_youtube_stream_url stub_str_exn stub_private sample_id
       = (PNone, PNone, PStr (str_of ''This video is private''))
   \<and> get_stream stub_unquote stub_str_exn stub_private (str_of ''https://youtu.be/dQw4w9WgXcQ'') =
       (PDict [(str_of ''success'', PBool False),
               (str_of ''error'', PStr (str_of ''This video is private'')),
               (str_of ''video_id'', PStr sample_id)],
        404)"
proof -
  have h: "extract_video_id (stub_unquote (str_of ''https://youtu.be/dQw4w9WgXcQ'')) = Some sample_id"
    by (simp add: stub_unquote_def sample_id_def extract_eval)
  have m: "stub_private (watch_url sample_id)
             = Raises_DownloadError (str_of ''ERROR: [youtube] Private video'')"
    by (simp add: stub_private_def)
  have s1: "sublist (str_of ''Private video'') (str_of ''ERROR: [youtube] Private video'')"
    by (simp add: sublist_eval str_of_def)
  have s2: "\<not> sublist (str_of ''Video unavailable'') (str_of ''ERROR: [youtube] Private video'')"
    by (simp add: sublist_eval str_of_def)
  have r: "get_youtube_stream_url stub_str_exn stub_private sample_id
             = (PNone, PNone, PStr (str_of ''This video is private''))"
    using m s1 s2
    by (simp add: get_youtube_stream_url_def classify_download_error_def contains_sublist)
  show ?thesis
    using extraction_failure_404
            [where unquote = stub_unquote and raw = "str_of ''https://youtu.be/dQw4w9WgXcQ''"
               and video_id = sample_id and str_exn = stub_str_exn
               and extract_info = stub_private
               and reason = "str_of ''This video is private''"
               and m = "str_of ''ERROR: [youtube] Private video''", OF h]
          h r m s1 s2
    by simp
qed

text \<open>
  C8. The invariant "every ID the normaliser returns has exactly 11 characters of the
  alphabet" fails on the code: \<open>$\<close> also matches before a final newline, so 11 alphabet
  characters followed by a newline pass the first test and are returned unchanged, as a
  string of 12 characters. Every other result is a canonical ID.
\<close>

theorem extract_video_id_trailing_newline:
  "extract_video_id (str_of ''abcdefghijk'' @ [newline]) = Some (str_of ''abcdefghijk'' @ [newline])
   \<and> length (str_of ''abcdefghijk'' @ [newline]) = 12
   \<and> \<not> canonical_id (str_of ''abcdefghijk'' @ [newline])"
  by (simp add: extract_eval canonical_id_def)

text \<open>
  C9. The claim that the result always has one of the two shapes fails: when the
  capability's dictionary holds \<open>None\<close> under \<open>url\<close>, the result is
  \<open>(None, video_info, None)\<close>, which is neither shape.
\<close>

theorem result_shape_counterexample:
  "\<not> (success_shape (get_youtube_stream_url stub_str_exn stub_null_url sample_id)
       \<or> failure_shape (get_youtube_stream_url stub_str_exn stub_null_url sample_id))"
  by (simp add: get_youtube_stream_url_def stub_null_url_def process_info_dict
        select_stream_url_dict success_shape_def failure_shape_def)

text \<open>
  C9, amended. Every outcome of the capability (a returned value, a \<open>DownloadError\<close>,
  another \<open>Exception\<close>) gives a result triple, so no exception propagates. The triple is
  either \<open>(None, None, error)\<close> with a non-empty message, or
  \<open>(stream_url, video_info, None)\<close> where \<open>video_info\<close> is a dictionary and \<open>stream_url\<close>
  is the value selected from the capability's dictionary. Provided that selected value is
  not \<open>None\<close>, the result has exactly one of the two shapes of the claim.
\<close>

theorem result_shape:
  "(failure_shape (get_youtube_stream_url str_exn extract_info video_id)
      \<or> (\<exists>d u. extract_info (watch_url video_id) = Returns (PDict d)
             \<and> select_stream_url (PDict d) = Inr (Some u)
             \<and> get_youtube_stream_url str_exn extract_info video_id
                 = (u, video_info_dict d, PNone)))
   \<and> ((case extract_info (watch_url video_id) of
          Returns info \<Rightarrow> select_stream_url info \<noteq> Inr (Some PNone)
        | _ \<Rightarrow> True) \<longrightarrow>
        (success_shape (get_youtube_stream_url str_exn extract_info video_id)
           \<or> failure_shape (get_youtube_stream_url str_exn extract_info video_id))
        \<and> \<not> (success_shape (get_youtube_stream_url str_exn extract_info video_id)
              \<and> failure_shape (get_youtube_stream_url str_exn extract_info video_id)))"
proof -
  let ?r = "get_youtube_stream_url str_exn extract_info video_id"
  have shape: "failure_shape ?r
      \<or> (\<exists>d u. extract_info (watch_url video_id) = Returns (PDict d)
             \<and> select_stream_url (PDict d) = Inr (Some u)
             \<and> ?r = (u, video_info_dict d, PNone))"
    by (rule get_youtube_stream_url_cases)
  have excl: "\<not> (success_shape ?r \<and> failure_shape ?r)"
    by (auto simp: success_shape_def failure_shape_def)
  have one: "success_shape ?r \<or> failure_shape ?r"
    if h: "case extract_info (watch_url video_id) of
             Returns info \<Rightarrow> select_stream_url info \<noteq> Inr (Some PNone) | _ \<Rightarrow> True"
  proof (cases "failure_shape ?r")
    case True
    then show ?thesis by simp
  next
    case False
    with shape obtain d u where d: "extract_info (watch_url video_id) = Returns (PDict d)"
        "select_stream_url (PDict d) = Inr (Some u)" "?r = (u, video_info_dict d, PNone)"
      by blast
    with h have "u \<noteq> PNone" by auto
    with d(3) show ?thesis by (simp add: success_shape_def video_info_dict_def)
  qed
  show ?thesis using shape excl one by blast
qed

theorem result_shape_witness:
  "(case stub_title_only (watch_url sample_id) of
      Returns info \<Rightarrow> select_stream_url info \<noteq> Inr (Some PNone)
    | _ \<Rightarrow> True)
   \<and> success_shape (get_youtube_stream_url stub_str_exn stub_title_only sample_id)
   \<and> \<not> failure_shape (get_youtube_stream_url stub_str_exn stub_title_only sample_id)"
proof -
  have h: "case stub_title_only (watch_url sample_id) of
             Returns info \<Rightarrow> select_stream_url info \<noteq> Inr (Some PNone) | _ \<Rightarrow> True"
    by (simp add: stub_title_only_def select_stream_url_dict)
  have e: "get_youtube_stream_url stub_str_exn stub_title_only sample_id
             = (PStr (str_of ''https://cdn/stream''),
                video_info_dict [(str_of ''url'', PStr (str_of ''https://cdn/stream'')),
                                 (str_of ''title'', PStr (str_of ''T''))],
                PNone)"
    by (simp add: get_youtube_stream_url_def stub_title_only_def process_info_dict
          select_stream_url_dict)
  have nf: "\<not> failure_shape (get_youtube_stream_url stub_str_exn stub_title_only sample_id)"
    unfolding e by (simp add: failure_shape_def)
  show ?thesis
    using result_shape [of stub_str_exn stub_title_only sample_id] h nf by blast
qed

text \<open>
  C10. When the capability's dictionary has no top-level \<open>url\<close> and its \<open>formats\<close> list
  starts with a dictionary without \<open>url\<close>, the subscript raises \<open>KeyError\<close>, which the
  last \<open>except\<close> clause reports: the result is the failure "Unexpected error: " followed
  by the text of the exception, not "No stream URL found in video info", and no later
  format is consulted.
\<close>

theorem first_format_without_url:
  assumes "extract_info (watch_url video_id) = Returns (PDict d)"
    and "map_of d (str_of ''url'') = None"
    and "map_of d (str_of ''formats'') = Some (PList (PDict f # fs))"
    and "map_of f (str_of ''url'') = None"
  shows "get_youtube_stream_url str_exn extract_info video_id
           = (PNone, PNone,
              PStr (str_of ''Unexpected error: '' @ str_exn (KeyError (PStr (str_of ''url'')))))
    \<and> get_youtube_stream_url str_exn extract_info video_id
           \<noteq> (PNone, PNone, PStr (str_of ''No stream URL found in video info''))"
  using assms
  by (simp add: get_youtube_stream_url_def process_info_dict select_stream_url_dict
        and_then_def str_of_def)

theorem first_format_without_url_witness:
  "stub_first_format_without_url (watch_url sample_id) =
     Returns (PDict [(str_of ''formats'',
                PList [PDict [(str_of ''format_id'', PStr (str_of ''18''))],
                       PDict [(str_of ''url'', PStr (str_of ''https://cdn/f1''))]])])
   \<and> get_youtube_stream_url stub_str_exn stub_first_format_without_url sample_id
       = (PNone, PNone, PStr (str_of ''Unexpected error: '' @ str_of [CHR 0x27] @ str_of ''url'' @ str_of [CHR 0x27]))"
proof -
  let ?f = "[(str_of ''format_id'', PStr (str_of ''18''))]"
  let ?fs = "[PDict [(str_of ''url'', PStr (str_of ''https://cdn/f1''))]]"
  let ?d = "[(str_of ''formats'', PList (PDict ?f # ?fs))]"
  have h1: "stub_first_format_without_url (watch_url sample_id) = Returns (PDict ?d)"
    by (simp add: stub_first_format_without_url_def)
  have h2: "map_of ?d (str_of ''url'') = None" by (simp add: str_of_def)
  have h3: "map_of ?d (str_of ''formats'') = Some (PList (PDict ?f # ?fs))" by simp
  have h4: "map_of ?f (str_of ''url'') = None" by (simp add: str_of_def)
  show ?thesis
    using first_format_without_url
            [where extract_info = stub_first_format_without_url and video_id = sample_id
               and d = ?d and f = ?f and fs = ?fs and str_exn = stub_str_exn,
             OF h1 h2 h3 h4]
          h1
    by (simp add: stub_str_exn_def)
qed

end
